theory Spec2Isabelle
  imports Main
begin

section \<open>Data model of the relay server\<close>

text \<open>
  The server embedded here is the socket.io entry point that declares the payload
  interfaces (\<^verbatim>\<open>JoinRoomData\<close>, \<^verbatim>\<open>CursorMoveData\<close>, ...) and tracks rooms; a second copy
  of it without the interfaces has the same handlers line by line. (The short server that
  only calls \<^verbatim>\<open>socket.join\<close> and relays \<^verbatim>\<open>send-message\<close> and \<^verbatim>\<open>change-language\<close> keeps no
  state and is not the subject of the specification.) The server keeps three process-wide
  maps: \<^verbatim>\<open>activeRooms : Map<string, Set<string>>\<close>, \<^verbatim>\<open>socketToRoom : Map<string, string>\<close>
  and \<^verbatim>\<open>roomCursors : Map<string, Map<string, any>>\<close>. Each socket.io handler runs to
  completion, so a handler is a function from the state before to the state after,
  together with the list of emit calls it made, in order.
\<close>

type_synonym socket_id = string
type_synonym room_id = string

text \<open>
  Payload parts that the server only stores or relays. \<^verbatim>\<open>position\<close> is \<^verbatim>\<open>{line, ch}\<close>,
  \<^verbatim>\<open>selection\<close> is \<^verbatim>\<open>{anchor, head}\<close>, \<^verbatim>\<open>userInfo\<close> is \<^verbatim>\<open>{name, color}\<close>. No arithmetic
  is done on the numbers. The WebRTC descriptions and candidates are opaque.
\<close>

datatype position = Position int int
datatype selection = Selection position position
datatype user_info = UserInfo string string
type_synonym rtc = string

text \<open>
  A stored cursor object. The source builds it as an object literal, so a field that the
  literal does not mention is absent (\<open>None\<close>):
  \<^verbatim>\<open>{position, userId, userInfo, timestamp}\<close> in cursor-move,
  \<^verbatim>\<open>{isVisible: true, userId, userInfo, timestamp}\<close> in cursor-visibility.
\<close>

record cursor =
  cur_position :: "position option"
  cur_selection :: "selection option"
  cur_isVisible :: "bool option"
  cur_userId :: "string option"
  cur_userInfo :: "user_info option"
  cur_timestamp :: "int option"

text \<open>
  The state: the three maps of the source, and \<open>adapterRooms\<close>, the room table of the
  socket.io adapter (\<^verbatim>\<open>io.sockets.adapter.rooms\<close>), which decides who receives a
  \<^verbatim>\<open>socket.to(room).emit\<close>. The adapter belongs to the socket.io library; its model here
  is the part the server meets: a connecting socket is put in the room named after its
  own id before the \<^verbatim>\<open>connection\<close> callback runs, \<^verbatim>\<open>socket.join\<close> adds the socket to a
  room, \<^verbatim>\<open>socket.leave\<close> removes it, and a closing socket has left every room by the time
  its \<^verbatim>\<open>disconnect\<close> handler runs.
\<close>

record state =
  activeRooms :: "room_id \<rightharpoonup> socket_id set"
  socketToRoom :: "socket_id \<rightharpoonup> room_id"
  roomCursors :: "room_id \<rightharpoonup> (socket_id \<rightharpoonup> cursor)"
  adapterRooms :: "room_id \<Rightarrow> socket_id set"

definition init_state :: state where
  "init_state = \<lparr>activeRooms = Map.empty, socketToRoom = Map.empty,
                 roomCursors = Map.empty, adapterRooms = (\<lambda>r. {})\<rparr>"

text \<open>Inbound events: \<open>Connect\<close> for the \<^verbatim>\<open>connection\<close> callback of \<^verbatim>\<open>io.on\<close>, then one
  constructor per \<^verbatim>\<open>socket.on\<close> registration, fields in the order of the payload
  interfaces.\<close>

datatype event =
    Connect
  | JoinRoom room_id string bool
  | CheckRoom room_id
  | CodeChanged room_id string
  | InputChanged room_id string
  | ChangeLanguage room_id string
  | RunCode room_id string string string string
  | ExecutionStatus room_id bool
  | CursorMove room_id position string user_info
  | CursorSelection room_id selection string user_info
  | CursorVisibility room_id bool string user_info
  | CallOffer room_id rtc string
  | CallAnswer room_id rtc string
  | IceCandidate room_id rtc string
  | CallRequest room_id string
  | CallAccept room_id string
  | CallReject room_id string
  | CallEnd room_id string
  | UserReadyForCall room_id string
  | Disconnect

text \<open>Outbound payloads, one constructor per shape of emitted object.\<close>

datatype body =
    Message string
  | RoomRef room_id
  | UserJoined string socket_id
  | UserLeft socket_id
  | CodeBody string
  | InputBody string
  | LanguageBody string
  | CodeRunBody string string string string
  | RunningBody bool
  | CursorMoveBody socket_id position string user_info
  | CursorSelectionBody socket_id selection string user_info
  | CursorVisibilityBody socket_id bool string user_info
  | OfferBody rtc string socket_id
  | AnswerBody rtc string socket_id
  | CandidateBody rtc string socket_id
  | CallBody string socket_id

text \<open>
  An emit call: \<^verbatim>\<open>socket.emit(name, body)\<close> goes to the sender,
  \<^verbatim>\<open>socket.to(room).emit(name, body)\<close> to the sockets of the adapter room except the
  sender.
\<close>

datatype target = ToSender | ToOthersIn room_id

datatype emission = Emit target string body

fun recipients :: "(room_id \<Rightarrow> socket_id set) \<Rightarrow> socket_id \<Rightarrow> target \<Rightarrow> socket_id set" where
  "recipients rooms sid ToSender = {sid}"
| "recipients rooms sid (ToOthersIn r) = rooms r - {sid}"

fun delivered :: "(room_id \<Rightarrow> socket_id set) \<Rightarrow> socket_id \<Rightarrow> emission
    \<Rightarrow> (socket_id \<times> string \<times> body) set" where
  "delivered rooms sid (Emit t n b) = (\<lambda>d. (d, n, b)) ` recipients rooms sid t"

definition deliveries :: "state \<Rightarrow> socket_id \<Rightarrow> emission list
    \<Rightarrow> (socket_id \<times> string \<times> body) set" where
  "deliveries s sid out = (\<Union>e \<in> set out. delivered (adapterRooms s) sid e)"

subsection \<open>The socket.io room primitives\<close>

definition socket_join :: "socket_id \<Rightarrow> room_id \<Rightarrow> (room_id \<Rightarrow> socket_id set)
    \<Rightarrow> (room_id \<Rightarrow> socket_id set)" where
  "socket_join sid r rooms = rooms(r := insert sid (rooms r))"

definition socket_leave :: "socket_id \<Rightarrow> room_id \<Rightarrow> (room_id \<Rightarrow> socket_id set)
    \<Rightarrow> (room_id \<Rightarrow> socket_id set)" where
  "socket_leave sid r rooms = rooms(r := rooms r - {sid})"

definition leave_all :: "socket_id \<Rightarrow> (room_id \<Rightarrow> socket_id set)
    \<Rightarrow> (room_id \<Rightarrow> socket_id set)" where
  "leave_all sid rooms = (\<lambda>r. rooms r - {sid})"

section \<open>The handlers\<close>

subsection \<open>join-room\<close>

text \<open>
  The block under \<^verbatim>\<open>// Leave previous room if any\<close>. Its guard \<^verbatim>\<open>if (previousRoom)\<close> tests a
  string for truthiness: it fails when the registry has no entry and also when the entry
  is the empty string.
\<close>

definition leave_previous_room :: "socket_id \<Rightarrow> state \<Rightarrow> state" where
  "leave_previous_room sid s =
     (case socketToRoom s sid of
        None \<Rightarrow> s
      | Some previousRoom \<Rightarrow>
          if previousRoom = [] then s
          else
            let sl = s\<lparr>adapterRooms := socket_leave sid previousRoom (adapterRooms s)\<rparr> in
            (case activeRooms sl previousRoom of
               None \<Rightarrow> sl
             | Some roomParticipants \<Rightarrow>
                 let remaining = roomParticipants - {sid} in
                 if remaining = {}
                 then sl\<lparr>activeRooms := (activeRooms sl)(previousRoom := None),
                         roomCursors := (roomCursors sl)(previousRoom := None)\<rparr>
                 else sl\<lparr>activeRooms := (activeRooms sl)(previousRoom \<mapsto> remaining)\<rparr>))"

text \<open>
  The block under \<^verbatim>\<open>// Join new room\<close>. \<^verbatim>\<open>if (!activeRooms.has(roomId)) activeRooms.set(roomId,
  new Set())\<close> followed by \<^verbatim>\<open>activeRooms.get(roomId)!.add(socket.id)\<close> is one update: the
  socket is added to the existing set, or to a fresh one.
\<close>

definition join_new_room :: "socket_id \<Rightarrow> room_id \<Rightarrow> state \<Rightarrow> state" where
  "join_new_room sid roomId s =
     (let s1 = s\<lparr>adapterRooms := socket_join sid roomId (adapterRooms s),
                 socketToRoom := (socketToRoom s)(sid \<mapsto> roomId)\<rparr>;
          s2 = s1\<lparr>activeRooms := (activeRooms s1)(roomId \<mapsto>
                  insert sid (case activeRooms s1 roomId of None \<Rightarrow> {} | Some ps \<Rightarrow> ps))\<rparr>
      in if roomCursors s2 roomId = None
         then s2\<lparr>roomCursors := (roomCursors s2)(roomId \<mapsto> Map.empty)\<rparr>
         else s2)"

definition join_room :: "socket_id \<Rightarrow> room_id \<Rightarrow> string \<Rightarrow> bool \<Rightarrow> state
    \<Rightarrow> state \<times> emission list" where
  "join_room sid roomId userId isCreating s =
     (let roomExists = (activeRooms s roomId \<noteq> None) in
      if \<not> roomExists \<and> \<not> isCreating
      then (s, [Emit ToSender ''room-not-available'' (Message ''Room does not exist'')])
      else (join_new_room sid roomId (leave_previous_room sid s),
            [Emit ToSender ''room-joined'' (RoomRef roomId),
             Emit (ToOthersIn roomId) ''user-joined'' (UserJoined userId sid)]))"

subsection \<open>check-room\<close>

definition check_room :: "socket_id \<Rightarrow> room_id \<Rightarrow> state \<Rightarrow> state \<times> emission list" where
  "check_room sid roomId s =
     (if activeRooms s roomId \<noteq> None
      then (s, [Emit ToSender ''room-exists'' (RoomRef roomId)])
      else (s, [Emit ToSender ''room-not-exists'' (RoomRef roomId)]))"

subsection \<open>Editor relays\<close>

definition code_changed :: "socket_id \<Rightarrow> room_id \<Rightarrow> string \<Rightarrow> state \<Rightarrow> state \<times> emission list" where
  "code_changed sid roomId code s =
     (s, [Emit (ToOthersIn roomId) ''code-changed'' (CodeBody code)])"

definition input_changed :: "socket_id \<Rightarrow> room_id \<Rightarrow> string \<Rightarrow> state \<Rightarrow> state \<times> emission list" where
  "input_changed sid roomId input s =
     (s, [Emit (ToOthersIn roomId) ''input-changed'' (InputBody input)])"

definition change_language :: "socket_id \<Rightarrow> room_id \<Rightarrow> string \<Rightarrow> state \<Rightarrow> state \<times> emission list" where
  "change_language sid roomId language s =
     (s, [Emit (ToOthersIn roomId) ''language-changed'' (LanguageBody language)])"

definition run_code :: "socket_id \<Rightarrow> room_id \<Rightarrow> string \<Rightarrow> string \<Rightarrow> string \<Rightarrow> string \<Rightarrow> state
    \<Rightarrow> state \<times> emission list" where
  "run_code sid roomId output language input code s =
     (s, [Emit (ToOthersIn roomId) ''code-run'' (CodeRunBody output language input code)])"

definition execution_status :: "socket_id \<Rightarrow> room_id \<Rightarrow> bool \<Rightarrow> state \<Rightarrow> state \<times> emission list" where
  "execution_status sid roomId isRunning s =
     (s, [Emit (ToOthersIn roomId) ''execution-status'' (RunningBody isRunning)])"

subsection \<open>Cursor handlers\<close>

text \<open>\<open>now\<close> is the value of \<^verbatim>\<open>Date.now()\<close> read by the handler.\<close>

definition cursor_move :: "int \<Rightarrow> socket_id \<Rightarrow> room_id \<Rightarrow> position \<Rightarrow> string \<Rightarrow> user_info
    \<Rightarrow> state \<Rightarrow> state \<times> emission list" where
  "cursor_move now sid roomId position userId userInfo s =
     (case roomCursors s roomId of
        None \<Rightarrow> (s, [])
      | Some roomCursorMap \<Rightarrow>
          (s\<lparr>roomCursors := (roomCursors s)(roomId \<mapsto> roomCursorMap(sid \<mapsto>
               \<lparr>cur_position = Some position, cur_selection = None, cur_isVisible = None,
                cur_userId = Some userId, cur_userInfo = Some userInfo,
                cur_timestamp = Some now\<rparr>))\<rparr>,
           [Emit (ToOthersIn roomId) ''cursor-move''
              (CursorMoveBody sid position userId userInfo)]))"

definition cursor_selection :: "int \<Rightarrow> socket_id \<Rightarrow> room_id \<Rightarrow> selection \<Rightarrow> string \<Rightarrow> user_info
    \<Rightarrow> state \<Rightarrow> state \<times> emission list" where
  "cursor_selection now sid roomId selection userId userInfo s =
     (case roomCursors s roomId of
        None \<Rightarrow> (s, [])
      | Some roomCursorMap \<Rightarrow>
          ((case roomCursorMap sid of
              None \<Rightarrow> s
            | Some currentCursor \<Rightarrow>
                s\<lparr>roomCursors := (roomCursors s)(roomId \<mapsto> roomCursorMap(sid \<mapsto>
                    currentCursor\<lparr>cur_selection := Some selection,
                                  cur_timestamp := Some now\<rparr>))\<rparr>),
           [Emit (ToOthersIn roomId) ''cursor-selection''
              (CursorSelectionBody sid selection userId userInfo)]))"

definition cursor_visibility :: "int \<Rightarrow> socket_id \<Rightarrow> room_id \<Rightarrow> bool \<Rightarrow> string \<Rightarrow> user_info
    \<Rightarrow> state \<Rightarrow> state \<times> emission list" where
  "cursor_visibility now sid roomId isVisible userId userInfo s =
     (case roomCursors s roomId of
        None \<Rightarrow> (s, [])
      | Some roomCursorMap \<Rightarrow>
          ((if isVisible
            then s\<lparr>roomCursors := (roomCursors s)(roomId \<mapsto> roomCursorMap(sid \<mapsto>
                    \<lparr>cur_position = None, cur_selection = None, cur_isVisible = Some True,
                     cur_userId = Some userId, cur_userInfo = Some userInfo,
                     cur_timestamp = Some now\<rparr>))\<rparr>
            else s\<lparr>roomCursors := (roomCursors s)(roomId \<mapsto> roomCursorMap(sid := None))\<rparr>),
           [Emit (ToOthersIn roomId) ''cursor-visibility''
              (CursorVisibilityBody sid isVisible userId userInfo)]))"

subsection \<open>WebRTC signalling relays\<close>

definition call_offer :: "socket_id \<Rightarrow> room_id \<Rightarrow> rtc \<Rightarrow> string \<Rightarrow> state \<Rightarrow> state \<times> emission list" where
  "call_offer sid roomId offer fromUserId s =
     (s, [Emit (ToOthersIn roomId) ''call-offer'' (OfferBody offer fromUserId sid)])"

definition call_answer :: "socket_id \<Rightarrow> room_id \<Rightarrow> rtc \<Rightarrow> string \<Rightarrow> state \<Rightarrow> state \<times> emission list" where
  "call_answer sid roomId answer fromUserId s =
     (s, [Emit (ToOthersIn roomId) ''call-answer'' (AnswerBody answer fromUserId sid)])"

definition ice_candidate :: "socket_id \<Rightarrow> room_id \<Rightarrow> rtc \<Rightarrow> string \<Rightarrow> state \<Rightarrow> state \<times> emission list" where
  "ice_candidate sid roomId candidate fromUserId s =
     (s, [Emit (ToOthersIn roomId) ''ice-candidate'' (CandidateBody candidate fromUserId sid)])"

definition call_request :: "socket_id \<Rightarrow> room_id \<Rightarrow> string \<Rightarrow> state \<Rightarrow> state \<times> emission list" where
  "call_request sid roomId fromUserId s =
     (s, [Emit (ToOthersIn roomId) ''call-request'' (CallBody fromUserId sid)])"

definition call_accept :: "socket_id \<Rightarrow> room_id \<Rightarrow> string \<Rightarrow> state \<Rightarrow> state \<times> emission list" where
  "call_accept sid roomId fromUserId s =
     (s, [Emit (ToOthersIn roomId) ''call-accept'' (CallBody fromUserId sid)])"

definition call_reject :: "socket_id \<Rightarrow> room_id \<Rightarrow> string \<Rightarrow> state \<Rightarrow> state \<times> emission list" where
  "call_reject sid roomId fromUserId s =
     (s, [Emit (ToOthersIn roomId) ''call-reject'' (CallBody fromUserId sid)])"

definition call_end :: "socket_id \<Rightarrow> room_id \<Rightarrow> string \<Rightarrow> state \<Rightarrow> state \<times> emission list" where
  "call_end sid roomId fromUserId s =
     (s, [Emit (ToOthersIn roomId) ''call-end'' (CallBody fromUserId sid)])"

definition user_ready_for_call :: "socket_id \<Rightarrow> room_id \<Rightarrow> string \<Rightarrow> state
    \<Rightarrow> state \<times> emission list" where
  "user_ready_for_call sid roomId fromUserId s =
     (s, [Emit (ToOthersIn roomId) ''user-ready-for-call'' (CallBody fromUserId sid)])"

subsection \<open>disconnect\<close>

text \<open>
  The guard \<^verbatim>\<open>if (roomId)\<close> is again a truthiness test on the registry entry. Inside it:
  remove the socket from the room's participants and drop the room and its cursor map
  when the set is empty; delete the socket's cursor from the room's cursor map if the
  map is (still) there; notify the others; clear the registry entry.
\<close>

definition disconnect :: "socket_id \<Rightarrow> state \<Rightarrow> state \<times> emission list" where
  "disconnect sid s =
     (case socketToRoom s sid of
        None \<Rightarrow> (s, [])
      | Some roomId \<Rightarrow>
          if roomId = [] then (s, [])
          else
            let s1 = (case activeRooms s roomId of
                        None \<Rightarrow> s
                      | Some roomParticipants \<Rightarrow>
                          let remaining = roomParticipants - {sid} in
                          if remaining = {}
                          then s\<lparr>activeRooms := (activeRooms s)(roomId := None),
                                 roomCursors := (roomCursors s)(roomId := None)\<rparr>
                          else s\<lparr>activeRooms := (activeRooms s)(roomId \<mapsto> remaining)\<rparr>);
                s2 = (case roomCursors s1 roomId of
                        None \<Rightarrow> s1
                      | Some roomCursorMap \<Rightarrow>
                          s1\<lparr>roomCursors := (roomCursors s1)(roomId \<mapsto>
                               roomCursorMap(sid := None))\<rparr>)
            in (s2\<lparr>socketToRoom := (socketToRoom s2)(sid := None)\<rparr>,
                [Emit (ToOthersIn roomId) ''user-left'' (UserLeft sid)]))"

subsection \<open>Dispatch\<close>

text \<open>
  One inbound event of socket \<open>sid\<close>, handled at clock value \<open>now\<close>. The
  \<^verbatim>\<open>connection\<close> callback only logs and registers the handlers; the transport has put
  the socket in the room of its own id. For \<^verbatim>\<open>disconnect\<close> the transport has already
  taken the socket out of every adapter room.
\<close>

fun on_event :: "int \<Rightarrow> socket_id \<Rightarrow> event \<Rightarrow> state \<Rightarrow> state \<times> emission list" where
  "on_event now sid Connect s =
     (s\<lparr>adapterRooms := socket_join sid sid (adapterRooms s)\<rparr>, [])"
| "on_event now sid (JoinRoom r u c) s = join_room sid r u c s"
| "on_event now sid (CheckRoom r) s = check_room sid r s"
| "on_event now sid (CodeChanged r c) s = code_changed sid r c s"
| "on_event now sid (InputChanged r i) s = input_changed sid r i s"
| "on_event now sid (ChangeLanguage r l) s = change_language sid r l s"
| "on_event now sid (RunCode r out l i c) s = run_code sid r out l i c s"
| "on_event now sid (ExecutionStatus r b) s = execution_status sid r b s"
| "on_event now sid (CursorMove r p u ui) s = cursor_move now sid r p u ui s"
| "on_event now sid (CursorSelection r sel u ui) s = cursor_selection now sid r sel u ui s"
| "on_event now sid (CursorVisibility r v u ui) s = cursor_visibility now sid r v u ui s"
| "on_event now sid (CallOffer r x u) s = call_offer sid r x u s"
| "on_event now sid (CallAnswer r x u) s = call_answer sid r x u s"
| "on_event now sid (IceCandidate r x u) s = ice_candidate sid r x u s"
| "on_event now sid (CallRequest r u) s = call_request sid r u s"
| "on_event now sid (CallAccept r u) s = call_accept sid r u s"
| "on_event now sid (CallReject r u) s = call_reject sid r u s"
| "on_event now sid (CallEnd r u) s = call_end sid r u s"
| "on_event now sid (UserReadyForCall r u) s = user_ready_for_call sid r u s"
| "on_event now sid Disconnect s =
     disconnect sid (s\<lparr>adapterRooms := leave_all sid (adapterRooms s)\<rparr>)"

text \<open>A run of the server: the inbound events in arrival order, from the given state.\<close>

fun run :: "(int \<times> socket_id \<times> event) list \<Rightarrow> state \<Rightarrow> state" where
  "run [] s = s"
| "run ((now, sid, ev) # evs) s = run evs (fst (on_event now sid ev s))"

section \<open>Notions used by the properties\<close>

text \<open>The member set of a room in the membership table; a room without an entry has none.\<close>

definition members :: "state \<Rightarrow> room_id \<Rightarrow> socket_id set" where
  "members s r = (case activeRooms s r of None \<Rightarrow> {} | Some ps \<Rightarrow> ps)"

text \<open>The stored cursor record of a (room, connection) pair, if any.\<close>

definition cursor_record :: "state \<Rightarrow> room_id \<Rightarrow> socket_id \<Rightarrow> cursor option" where
  "cursor_record s r c = (case roomCursors s r of None \<Rightarrow> None | Some m \<Rightarrow> m c)"

text \<open>
  The table invariant: no entry holds an empty set, and the cursor store has a map for
  exactly the rooms of the membership table.
\<close>

definition rooms_ok :: "state \<Rightarrow> bool" where
  "rooms_ok s \<longleftrightarrow>
     (\<forall>r ps. activeRooms s r = Some ps \<longrightarrow> ps \<noteq> {}) \<and>
     dom (roomCursors s) = dom (activeRooms s)"

text \<open>
  What holds between the registry, the membership table and the adapter rooms in every
  state the server reaches. The second and fourth parts are restricted to non-empty room
  identifiers: the truthiness guards skip the cleanup of a socket registered in the room
  with the empty identifier, so that room can keep sockets that have moved on or closed.
  The third part allows for the room named after a socket's own id.
\<close>

definition registry_ok :: "state \<Rightarrow> bool" where
  "registry_ok s \<longleftrightarrow>
     (\<forall>c r. socketToRoom s c = Some r \<longrightarrow> c \<in> members s r) \<and>
     (\<forall>c r. r \<noteq> [] \<longrightarrow> c \<in> members s r \<longrightarrow> socketToRoom s c = Some r) \<and>
     (\<forall>c r. c \<in> adapterRooms s r \<longrightarrow> c \<in> members s r \<or> c = r) \<and>
     (\<forall>c r. r \<noteq> [] \<longrightarrow> c \<in> members s r \<longrightarrow> c \<in> adapterRooms s r)"

text \<open>
  The relayed events: the room named by the payload's \<^verbatim>\<open>roomId\<close> field, and the name
  under which the event arrives. \<^verbatim>\<open>connection\<close>, \<^verbatim>\<open>join-room\<close>, \<^verbatim>\<open>check-room\<close> and
  \<^verbatim>\<open>disconnect\<close> are not relayed.
\<close>

fun fanout_room :: "event \<Rightarrow> room_id option" where
  "fanout_room Connect = None"
| "fanout_room (JoinRoom r u c) = None"
| "fanout_room (CheckRoom r) = None"
| "fanout_room (CodeChanged r c) = Some r"
| "fanout_room (InputChanged r i) = Some r"
| "fanout_room (ChangeLanguage r l) = Some r"
| "fanout_room (RunCode r out l i c) = Some r"
| "fanout_room (ExecutionStatus r b) = Some r"
| "fanout_room (CursorMove r p u ui) = Some r"
| "fanout_room (CursorSelection r sel u ui) = Some r"
| "fanout_room (CursorVisibility r v u ui) = Some r"
| "fanout_room (CallOffer r x u) = Some r"
| "fanout_room (CallAnswer r x u) = Some r"
| "fanout_room (IceCandidate r x u) = Some r"
| "fanout_room (CallRequest r u) = Some r"
| "fanout_room (CallAccept r u) = Some r"
| "fanout_room (CallReject r u) = Some r"
| "fanout_room (CallEnd r u) = Some r"
| "fanout_room (UserReadyForCall r u) = Some r"
| "fanout_room Disconnect = None"





text \<open>
  The specification's description of a record made by a position update: only the
  position, the user-display descriptor and the timestamp are set.
\<close>

definition only_position_userInfo_timestamp :: "cursor \<Rightarrow> bool" where
  "only_position_userInfo_timestamp cur \<longleftrightarrow>
     cur_position cur \<noteq> None \<and> cur_userInfo cur \<noteq> None \<and> cur_timestamp cur \<noteq> None \<and>
     cur_selection cur = None \<and> cur_isVisible cur = None \<and> cur_userId cur = None"

section \<open>Invariants of the stores\<close>

lemmas relay_defs = check_room_def code_changed_def input_changed_def change_language_def
  run_code_def execution_status_def call_offer_def call_answer_def ice_candidate_def
  call_request_def call_accept_def call_reject_def call_end_def user_ready_for_call_def

subsection \<open>Every table entry is non-empty and has its cursor map\<close>

lemma rooms_ok_leave: "rooms_ok s \<Longrightarrow> rooms_ok (leave_previous_room sid s)"
  by (auto simp: rooms_ok_def leave_previous_room_def Let_def split: option.splits if_splits)

lemma rooms_ok_join_new: "rooms_ok s \<Longrightarrow> rooms_ok (join_new_room sid r s)"
  by (auto simp: rooms_ok_def join_new_room_def Let_def split: option.splits if_splits)

lemma rooms_ok_join: "rooms_ok s \<Longrightarrow> rooms_ok (fst (join_room sid r u b s))"
  by (simp add: join_room_def Let_def rooms_ok_leave rooms_ok_join_new)

lemma rooms_ok_disconnect: "rooms_ok s \<Longrightarrow> rooms_ok (fst (disconnect sid s))"
  by (auto simp: rooms_ok_def disconnect_def Let_def split: option.splits if_splits)

lemma rooms_ok_cursor_move: "rooms_ok s \<Longrightarrow> rooms_ok (fst (cursor_move now sid r p u ui s))"
  by (auto simp: rooms_ok_def cursor_move_def insert_absorb domI split: option.splits)

lemma rooms_ok_cursor_selection:
  "rooms_ok s \<Longrightarrow> rooms_ok (fst (cursor_selection now sid r p u ui s))"
  by (auto simp: rooms_ok_def cursor_selection_def insert_absorb domI split: option.splits)

lemma rooms_ok_cursor_visibility:
  "rooms_ok s \<Longrightarrow> rooms_ok (fst (cursor_visibility now sid r p u ui s))"
  by (auto simp: rooms_ok_def cursor_visibility_def insert_absorb domI split: option.splits)

lemma rooms_ok_adapter [simp]: "rooms_ok (s\<lparr>adapterRooms := a\<rparr>) = rooms_ok s"
  by (simp add: rooms_ok_def)

lemma rooms_ok_step: "rooms_ok s \<Longrightarrow> rooms_ok (fst (on_event now sid ev s))"
  by (cases ev) (simp_all add: relay_defs rooms_ok_join rooms_ok_disconnect
      rooms_ok_cursor_move rooms_ok_cursor_selection rooms_ok_cursor_visibility)

lemma rooms_ok_init: "rooms_ok init_state"
  by (simp add: rooms_ok_def init_state_def)

lemma rooms_ok_run: "rooms_ok s \<Longrightarrow> rooms_ok (run evs s)"
  by (induction evs s rule: run.induct) (simp_all add: rooms_ok_step)

lemma rooms_ok_reached: "rooms_ok (run evs init_state)"
  by (simp add: rooms_ok_run rooms_ok_init)

subsection \<open>What one join and one disconnect do to the table, the adapter and the registry\<close>

lemma members_leave_previous:
  "members (leave_previous_room sid s) r =
     (if socketToRoom s sid = Some r \<and> r \<noteq> [] then members s r - {sid} else members s r)"
  by (auto simp: members_def leave_previous_room_def Let_def split: option.splits)

lemma adapter_leave_previous:
  "adapterRooms (leave_previous_room sid s) r =
     (if socketToRoom s sid = Some r \<and> r \<noteq> [] then adapterRooms s r - {sid}
      else adapterRooms s r)"
  by (auto simp: leave_previous_room_def socket_leave_def Let_def split: option.splits)

lemma registry_leave_previous:
  "socketToRoom (leave_previous_room sid s) = socketToRoom s"
  by (auto simp: leave_previous_room_def Let_def split: option.splits)

lemma members_join_new:
  "members (join_new_room sid r s) r' =
     (if r' = r then insert sid (members s r) else members s r')"
  by (auto simp: members_def join_new_room_def Let_def split: option.splits)

lemma adapter_join_new:
  "adapterRooms (join_new_room sid r s) r' =
     (if r' = r then insert sid (adapterRooms s r) else adapterRooms s r')"
  by (auto simp: join_new_room_def socket_join_def Let_def split: option.splits)

lemma registry_join_new:
  "socketToRoom (join_new_room sid r s) = (socketToRoom s)(sid \<mapsto> r)"
  by (auto simp: join_new_room_def Let_def split: option.splits)

lemma members_join_step:
  "members (join_new_room sid r (leave_previous_room sid s)) r' =
     (if r' = r then insert sid (members s r)
      else if socketToRoom s sid = Some r' \<and> r' \<noteq> [] then members s r' - {sid}
      else members s r')"
  by (simp add: members_leave_previous members_join_new)

lemma adapter_join_step:
  "adapterRooms (join_new_room sid r (leave_previous_room sid s)) r' =
     (if r' = r then insert sid (adapterRooms s r)
      else if socketToRoom s sid = Some r' \<and> r' \<noteq> [] then adapterRooms s r' - {sid}
      else adapterRooms s r')"
  by (simp add: adapter_leave_previous adapter_join_new)

lemma registry_join_step:
  "socketToRoom (join_new_room sid r (leave_previous_room sid s)) = (socketToRoom s)(sid \<mapsto> r)"
  by (simp add: registry_leave_previous registry_join_new)

lemmas join_step = members_join_step adapter_join_step registry_join_step

lemma members_disconnect:
  "members (fst (disconnect sid s)) r =
     (if socketToRoom s sid = Some r \<and> r \<noteq> [] then members s r - {sid} else members s r)"
  by (auto simp: members_def disconnect_def Let_def split: option.splits)

lemma adapter_disconnect:
  "adapterRooms (fst (disconnect sid s)) = adapterRooms s"
  by (auto simp: disconnect_def Let_def split: option.splits)

lemma registry_disconnect:
  "socketToRoom (fst (disconnect sid s)) c =
     (if c = sid \<and> socketToRoom s sid \<noteq> None \<and> socketToRoom s sid \<noteq> Some []
      then None else socketToRoom s c)"
  by (auto simp: disconnect_def Let_def split: option.splits)

lemma members_disconnect_step:
  "members (fst (disconnect sid (s\<lparr>adapterRooms := a\<rparr>))) r =
     (if socketToRoom s sid = Some r \<and> r \<noteq> [] then members s r - {sid} else members s r)"
  by (simp add: members_disconnect) (simp add: members_def)

lemma adapter_disconnect_step:
  "adapterRooms (fst (disconnect sid (s\<lparr>adapterRooms := leave_all sid (adapterRooms s)\<rparr>))) r =
     adapterRooms s r - {sid}"
  by (simp add: adapter_disconnect leave_all_def)

lemma registry_disconnect_step:
  "socketToRoom (fst (disconnect sid (s\<lparr>adapterRooms := a\<rparr>))) c =
     (if c = sid \<and> socketToRoom s sid \<noteq> None \<and> socketToRoom s sid \<noteq> Some []
      then None else socketToRoom s c)"
  by (simp add: registry_disconnect)

lemmas disconnect_step = members_disconnect_step adapter_disconnect_step registry_disconnect_step

subsection \<open>Registry, table and adapter agree on every non-empty room identifier\<close>

lemma registry_ok_join:
  assumes "registry_ok s"
  shows "registry_ok (fst (join_room sid r u b s))"
proof (cases "activeRooms s r = None \<and> \<not> b")
  case True
  then show ?thesis using assms by (simp add: join_room_def)
next
  case False
  then have eq: "fst (join_room sid r u b s) = join_new_room sid r (leave_previous_room sid s)"
    by (auto simp: join_room_def)
  have a1: "\<And>c r. socketToRoom s c = Some r \<Longrightarrow> c \<in> members s r"
    and a2: "\<And>c r. r \<noteq> [] \<Longrightarrow> c \<in> members s r \<Longrightarrow> socketToRoom s c = Some r"
    and a3: "\<And>c r. c \<in> adapterRooms s r \<Longrightarrow> c \<in> members s r \<or> c = r"
    and a4: "\<And>c r. r \<noteq> [] \<Longrightarrow> c \<in> members s r \<Longrightarrow> c \<in> adapterRooms s r"
    using assms unfolding registry_ok_def by blast+
  show ?thesis
    unfolding eq registry_ok_def
  proof (intro conjI allI impI)
    fix c r'
    assume h: "socketToRoom (join_new_room sid r (leave_previous_room sid s)) c = Some r'"
    show "c \<in> members (join_new_room sid r (leave_previous_room sid s)) r'"
    proof (cases "c = sid")
      case True
      with h show ?thesis by (simp add: join_step)
    next
      case False
      with h have "socketToRoom s c = Some r'" by (simp add: join_step)
      then have "c \<in> members s r'" by (rule a1)
      with False show ?thesis by (auto simp: join_step)
    qed
  next
    fix c r'
    assume h: "r' \<noteq> []" "c \<in> members (join_new_room sid r (leave_previous_room sid s)) r'"
    show "socketToRoom (join_new_room sid r (leave_previous_room sid s)) c = Some r'"
    proof (cases "c = sid")
      case True
      show ?thesis
      proof (cases "r' = r")
        case True
        with \<open>c = sid\<close> show ?thesis by (simp add: join_step)
      next
        case False
        have "socketToRoom s sid \<noteq> Some r'"
          using h False \<open>c = sid\<close> by (auto simp: join_step split: if_splits)
        moreover have "sid \<in> members s r'"
          using h False \<open>c = sid\<close> by (auto simp: join_step split: if_splits)
        ultimately show ?thesis using a2 [OF h(1)] by blast
      qed
    next
      case False
      with h(2) have "c \<in> members s r'" by (auto simp: join_step split: if_splits)
      then have "socketToRoom s c = Some r'" by (rule a2 [OF h(1)])
      with False show ?thesis by (simp add: join_step)
    qed
  next
    fix c r'
    assume h: "c \<in> adapterRooms (join_new_room sid r (leave_previous_room sid s)) r'"
    show "c \<in> members (join_new_room sid r (leave_previous_room sid s)) r' \<or> c = r'"
    proof (cases "c = sid \<and> r' = r")
      case True
      then show ?thesis by (simp add: join_step)
    next
      case False
      with h have "c \<in> adapterRooms s r'" by (auto simp: join_step split: if_splits)
      then have "c \<in> members s r' \<or> c = r'" by (rule a3)
      with h False show ?thesis by (auto simp: join_step split: if_splits)
    qed
  next
    fix c r'
    assume h: "r' \<noteq> []" "c \<in> members (join_new_room sid r (leave_previous_room sid s)) r'"
    show "c \<in> adapterRooms (join_new_room sid r (leave_previous_room sid s)) r'"
    proof (cases "c = sid \<and> r' = r")
      case True
      then show ?thesis by (simp add: join_step)
    next
      case False
      with h have "c \<in> members s r'" by (auto simp: join_step split: if_splits)
      then have "c \<in> adapterRooms s r'" by (rule a4 [OF h(1)])
      with h False show ?thesis by (auto simp: join_step split: if_splits)
    qed
  qed
qed

lemma registry_ok_disconnect:
  assumes "registry_ok s"
  shows "registry_ok (fst (disconnect sid (s\<lparr>adapterRooms := leave_all sid (adapterRooms s)\<rparr>)))"
    (is "registry_ok ?t")
proof -
  have a1: "\<And>c r. socketToRoom s c = Some r \<Longrightarrow> c \<in> members s r"
    and a2: "\<And>c r. r \<noteq> [] \<Longrightarrow> c \<in> members s r \<Longrightarrow> socketToRoom s c = Some r"
    and a3: "\<And>c r. c \<in> adapterRooms s r \<Longrightarrow> c \<in> members s r \<or> c = r"
    and a4: "\<And>c r. r \<noteq> [] \<Longrightarrow> c \<in> members s r \<Longrightarrow> c \<in> adapterRooms s r"
    using assms unfolding registry_ok_def by blast+
  show ?thesis
    unfolding registry_ok_def
  proof (intro conjI allI impI)
    fix c r'
    assume h: "socketToRoom ?t c = Some r'"
    then have g: "socketToRoom s c = Some r'" and n: "c = sid \<Longrightarrow> r' = []"
      by (auto simp: disconnect_step split: if_splits)
    from g have "c \<in> members s r'" by (rule a1)
    with n show "c \<in> members ?t r'"
      by (auto simp: disconnect_step)
  next
    fix c r'
    assume h: "r' \<noteq> []" "c \<in> members ?t r'"
    then have m: "c \<in> members s r'" and n: "c = sid \<Longrightarrow> socketToRoom s sid \<noteq> Some r'"
      by (auto simp: disconnect_step split: if_splits)
    from m have g: "socketToRoom s c = Some r'" by (rule a2 [OF h(1)])
    with n have "c \<noteq> sid" by blast
    with g show "socketToRoom ?t c = Some r'"
      by (simp add: disconnect_step)
  next
    fix c r'
    assume h: "c \<in> adapterRooms ?t r'"
    then have "c \<in> adapterRooms s r'" and "c \<noteq> sid"
      by (auto simp: disconnect_step)
    then show "c \<in> members ?t r' \<or> c = r'"
      using a3 [of c r'] by (auto simp: disconnect_step)
  next
    fix c r'
    assume h: "r' \<noteq> []" "c \<in> members ?t r'"
    then have m: "c \<in> members s r'" and n: "c = sid \<Longrightarrow> socketToRoom s sid \<noteq> Some r'"
      by (auto simp: disconnect_step split: if_splits)
    from m have g: "socketToRoom s c = Some r'" by (rule a2 [OF h(1)])
    with n have "c \<noteq> sid" by blast
    moreover from m have "c \<in> adapterRooms s r'" by (rule a4 [OF h(1)])
    ultimately show "c \<in> adapterRooms ?t r'"
      by (simp add: disconnect_step)
  qed
qed

lemma registry_ok_cursors [simp]: "registry_ok (s\<lparr>roomCursors := a\<rparr>) = registry_ok s"
  by (simp add: registry_ok_def members_def)

lemma registry_ok_connect:
  assumes "registry_ok s"
  shows "registry_ok (s\<lparr>adapterRooms := socket_join sid sid (adapterRooms s)\<rparr>)"
    (is "registry_ok ?t")
proof -
  have a1: "\<And>c r. socketToRoom s c = Some r \<Longrightarrow> c \<in> members s r"
    and a2: "\<And>c r. r \<noteq> [] \<Longrightarrow> c \<in> members s r \<Longrightarrow> socketToRoom s c = Some r"
    and a3: "\<And>c r. c \<in> adapterRooms s r \<Longrightarrow> c \<in> members s r \<or> c = r"
    and a4: "\<And>c r. r \<noteq> [] \<Longrightarrow> c \<in> members s r \<Longrightarrow> c \<in> adapterRooms s r"
    using assms unfolding registry_ok_def by blast+
  have m: "\<And>r. members ?t r = members s r" by (simp add: members_def)
  have g: "socketToRoom ?t = socketToRoom s" by simp
  have ad: "\<And>r. adapterRooms ?t r = (if r = sid then insert sid (adapterRooms s r) else adapterRooms s r)"
    by (simp add: socket_join_def)
  show ?thesis
    unfolding registry_ok_def m g ad
  proof (intro conjI allI impI)
    fix c r
    assume "socketToRoom s c = Some r"
    then show "c \<in> members s r" by (rule a1)
  next
    fix c r
    assume "r \<noteq> []" "c \<in> members s r"
    then show "socketToRoom s c = Some r" by (rule a2)
  next
    fix c r
    assume h: "c \<in> (if r = sid then insert sid (adapterRooms s r) else adapterRooms s r)"
    show "c \<in> members s r \<or> c = r"
    proof (cases "c = r")
      case False
      with h have "c \<in> adapterRooms s r" by (cases "r = sid") simp_all
      then show ?thesis by (rule a3)
    qed simp
  next
    fix c r
    assume "r \<noteq> []" "c \<in> members s r"
    then have "c \<in> adapterRooms s r" by (rule a4)
    then show "c \<in> (if r = sid then insert sid (adapterRooms s r) else adapterRooms s r)"
      by (cases "r = sid") simp_all
  qed
qed

lemma registry_ok_step: "registry_ok s \<Longrightarrow> registry_ok (fst (on_event now sid ev s))"
  by (cases ev) (simp_all add: relay_defs registry_ok_join registry_ok_disconnect
      registry_ok_connect cursor_move_def cursor_selection_def cursor_visibility_def
      split: option.splits)

lemma registry_ok_init: "registry_ok init_state"
  by (simp add: registry_ok_def init_state_def members_def)

lemma registry_ok_run: "registry_ok s \<Longrightarrow> registry_ok (run evs s)"
  by (induction evs s rule: run.induct) (simp_all add: registry_ok_step)

lemma registry_ok_reached: "registry_ok (run evs init_state)"
  by (simp add: registry_ok_run registry_ok_init)

lemma attached_member_or_own:
  "c \<in> adapterRooms (run evs init_state) r \<Longrightarrow> c \<in> members (run evs init_state) r \<or> c = r"
  using registry_ok_reached [of evs] unfolding registry_ok_def by blast

lemma member_attached:
  assumes "r \<noteq> []" and "c \<in> members (run evs init_state) r"
  shows "c \<in> adapterRooms (run evs init_state) r"
  using registry_ok_reached [of evs] assms unfolding registry_ok_def by blast

lemma member_iff_registered:
  assumes "r \<noteq> []"
  shows "c \<in> members (run evs init_state) r \<longleftrightarrow> socketToRoom (run evs init_state) c = Some r"
  using registry_ok_reached [of evs] assms unfolding registry_ok_def by blast

lemma registered_is_member:
  "socketToRoom (run evs init_state) c = Some r \<Longrightarrow> c \<in> members (run evs init_state) r"
  using registry_ok_reached [of evs] unfolding registry_ok_def by blast

section \<open>Evaluation and delivery lemmas\<close>

lemmas eval_defs = init_state_def join_room_def join_new_room_def leave_previous_room_def
  disconnect_def cursor_move_def cursor_selection_def cursor_visibility_def
  socket_join_def socket_leave_def leave_all_def members_def cursor_record_def deliveries_def
  Let_def

lemma deliveries_Nil [simp]: "deliveries s sid [] = {}"
  by (simp add: deliveries_def)

lemma deliveries_to_sender [simp]: "deliveries s sid [Emit ToSender n b] = {(sid, n, b)}"
  by (simp add: deliveries_def)

lemma deliveries_to_others [simp]:
  "deliveries s sid [Emit (ToOthersIn r) n b] = (\<lambda>d. (d, n, b)) ` (adapterRooms s r - {sid})"
  by (simp add: deliveries_def)


section \<open>Room lifecycle\<close>

lemma members_cursors_upd [simp]: "members (s\<lparr>roomCursors := a\<rparr>) r = members s r"
  by (simp add: members_def)

lemma members_adapter_upd [simp]: "members (s\<lparr>adapterRooms := a\<rparr>) r = members s r"
  by (simp add: members_def)

lemma dom_activeRooms_iff: "rooms_ok s \<Longrightarrow> r \<in> dom (activeRooms s) \<longleftrightarrow> members s r \<noteq> {}"
  by (auto simp: rooms_ok_def members_def split: option.splits)

lemma activeRooms_members: "r \<in> dom (activeRooms s) \<Longrightarrow> activeRooms s r = Some (members s r)"
  by (auto simp: members_def)

lemma members_join_room:
  "members (fst (join_room sid r2 u b s)) r =
     (if activeRooms s r2 = None \<and> \<not> b then members s r
      else if r = r2 then insert sid (members s r)
      else if socketToRoom s sid = Some r \<and> r \<noteq> [] then members s r - {sid}
      else members s r)"
  by (simp add: join_room_def join_step)

lemma members_relay:
  "fanout_room ev = Some r0 \<Longrightarrow> members (fst (on_event now sid ev s)) r = members s r"
  by (cases ev) (simp_all add: relay_defs cursor_move_def cursor_selection_def
      cursor_visibility_def split: option.splits)

lemma members_on_event:
  "members (fst (on_event now sid ev s)) r =
     (case ev of
        JoinRoom r2 u b \<Rightarrow> members (fst (join_room sid r2 u b s)) r
      | Disconnect \<Rightarrow>
          (if socketToRoom s sid = Some r \<and> r \<noteq> [] then members s r - {sid} else members s r)
      | _ \<Rightarrow> members s r)"
proof (cases "fanout_room ev")
  case (Some r0)
  then show ?thesis by (simp add: members_relay) (cases ev; simp)
next
  case None
  then show ?thesis by (cases ev) (simp_all add: check_room_def disconnect_step)
qed

lemma members_step_subset:
  "members (fst (on_event now sid ev s)) r \<subseteq> insert sid (members s r)"
  unfolding members_on_event members_join_room by (auto split: event.splits)

lemma members_step_keeps_others:
  "members s r - {sid} \<subseteq> members (fst (on_event now sid ev s)) r"
  unfolding members_on_event members_join_room by (auto split: event.splits)

lemma members_step_grows:
  assumes "c \<in> members (fst (on_event now sid ev s)) r" and "c \<notin> members s r"
  shows "c = sid \<and> (\<exists>u b. ev = JoinRoom r u b \<and> (activeRooms s r \<noteq> None \<or> b))"
  using assms unfolding members_on_event members_join_room
  by (auto split: event.splits if_splits)

lemma members_step_join:
  "activeRooms s r \<noteq> None \<or> b \<Longrightarrow>
   members (fst (on_event now sid (JoinRoom r u b) s)) r = insert sid (members s r)"
  by (auto simp: members_join_room)

lemma roomCursors_leave_previous_None:
  "roomCursors s r = None \<Longrightarrow> roomCursors (leave_previous_room sid s) r = None"
  by (auto simp: leave_previous_room_def Let_def split: option.splits)

lemma roomCursors_join_new:
  "roomCursors (join_new_room sid r s) r =
     (if roomCursors s r = None then Some Map.empty else roomCursors s r)"
  by (simp add: join_new_room_def Let_def)

lemma room_created_by_join:
  assumes ok: "rooms_ok s"
    and before: "r \<notin> dom (activeRooms s)"
    and after: "r \<in> dom (activeRooms (fst (on_event now sid ev s)))"
  shows "(\<exists>u. ev = JoinRoom r u True) \<and>
         activeRooms (fst (on_event now sid ev s)) r = Some {sid} \<and>
         roomCursors (fst (on_event now sid ev s)) r = Some Map.empty"
proof -
  let ?s' = "fst (on_event now sid ev s)"
  have ok': "rooms_ok ?s'" using ok by (rule rooms_ok_step)
  from before ok have m: "members s r = {}" by (simp add: dom_activeRooms_iff)
  from before have a: "activeRooms s r = None" by (simp add: domIff)
  from after ok' have "members ?s' r \<noteq> {}" by (simp add: dom_activeRooms_iff)
  then obtain c where c: "c \<in> members ?s' r" by blast
  with m have "c \<notin> members s r" by simp
  with c have "\<exists>u b. ev = JoinRoom r u b \<and> (activeRooms s r \<noteq> None \<or> b)"
    using members_step_grows by blast
  with a obtain u where ev: "ev = JoinRoom r u True" by auto
  with m have "members ?s' r = {sid}"
    by (simp add: members_join_room)
  with after have t: "activeRooms ?s' r = Some {sid}"
    by (simp add: activeRooms_members)
  from a ok have "roomCursors s r = None"
    by (metis rooms_ok_def domIff)
  then have "roomCursors ?s' r = Some Map.empty"
    using ev by (simp add: join_room_def roomCursors_join_new roomCursors_leave_previous_None)
  with ev t show ?thesis by simp
qed

lemma join_enters_room:
  assumes ok: "rooms_ok s"
    and go: "r \<in> dom (activeRooms s) \<or> b"
  shows "sid \<in> members (fst (on_event now sid (JoinRoom r u b) s)) r \<and>
         r \<in> dom (activeRooms (fst (on_event now sid (JoinRoom r u b) s))) \<and>
         r \<in> dom (roomCursors (fst (on_event now sid (JoinRoom r u b) s)))"
proof -
  let ?s' = "fst (on_event now sid (JoinRoom r u b) s)"
  have ok': "rooms_ok ?s'" using ok by (rule rooms_ok_step)
  from go have "activeRooms s r \<noteq> None \<or> b" by (auto simp: domIff)
  then have "members ?s' r = insert sid (members s r)" by (rule members_step_join)
  then have m: "sid \<in> members ?s' r" by simp
  then have "members ?s' r \<noteq> {}" by blast
  with ok' have d: "r \<in> dom (activeRooms ?s')"
    by (simp add: dom_activeRooms_iff)
  with ok' have "r \<in> dom (roomCursors ?s')"
    by (simp add: rooms_ok_def)
  with d m show ?thesis by simp
qed

lemma room_deleted_with_last_member:
  assumes ok: "rooms_ok s"
    and before: "r \<in> dom (activeRooms s)"
    and after: "r \<notin> dom (activeRooms (fst (on_event now sid ev s)))"
  shows "members s r = {sid} \<and> r \<notin> dom (roomCursors (fst (on_event now sid ev s)))"
proof -
  let ?s' = "fst (on_event now sid ev s)"
  have ok': "rooms_ok ?s'" using ok by (rule rooms_ok_step)
  from before ok have m: "members s r \<noteq> {}" by (simp add: dom_activeRooms_iff)
  from after ok' have m': "members ?s' r = {}" by (simp add: dom_activeRooms_iff)
  have "members s r - {sid} \<subseteq> members ?s' r" by (rule members_step_keeps_others)
  with m' have "members s r - {sid} = {}" by simp
  with m have "members s r = {sid}" by blast
  moreover from after ok' have "r \<notin> dom (roomCursors ?s')" by (simp add: rooms_ok_def)
  ultimately show ?thesis by simp
qed

lemma last_member_leaves_room_deleted:
  assumes ok: "rooms_ok s"
    and last: "members s r = {c}"
    and gone: "c \<notin> members (fst (on_event now sid ev s)) r"
  shows "r \<notin> dom (activeRooms (fst (on_event now sid ev s))) \<and>
         r \<notin> dom (roomCursors (fst (on_event now sid ev s)))"
proof -
  let ?s' = "fst (on_event now sid ev s)"
  have ok': "rooms_ok ?s'" using ok by (rule rooms_ok_step)
  have "members ?s' r = {}"
  proof (rule ccontr)
    assume "members ?s' r \<noteq> {}"
    then obtain d where d: "d \<in> members ?s' r" by blast
    with gone have "d \<noteq> c" by blast
    with last have n: "d \<notin> members s r" by simp
    with d have "\<exists>u b. ev = JoinRoom r u b \<and> (activeRooms s r \<noteq> None \<or> b)"
      using members_step_grows by blast
    then obtain u b where "ev = JoinRoom r u b" and "activeRooms s r \<noteq> None \<or> b" by blast
    then have "members ?s' r = insert sid (members s r)"
      by (auto simp: members_join_room)
    with last have "c \<in> members ?s' r" by simp
    with gone show False by simp
  qed
  with ok' have a: "r \<notin> dom (activeRooms ?s')" by (simp add: dom_activeRooms_iff)
  with ok' have "r \<notin> dom (roomCursors ?s')" by (simp add: rooms_ok_def)
  with a show ?thesis by simp
qed


text \<open>
  What holds of the table after any sequence of events, handled one at a time from the
  empty stores: a room identifier is a key of \<open>activeRooms\<close> if and only if its member
  set is non-empty, and \<open>roomCursors\<close> has a map for exactly the same identifiers. For the
  next event of any socket: an entry that appears was made by a \<^verbatim>\<open>join-room\<close> for that
  room with \<open>isCreating\<close> set, holds the joining socket alone and comes with a fresh,
  empty cursor map; every join that passes the existence guard leaves the socket in the
  room's entry; and an entry that disappears had the sender as its only member, the cursor
  map going in the same step. Whether the departure of the last member does take it out of
  the member set is another matter: for a non-empty identifier it does (lemmas
  \<open>disconnect_cascade_nonempty_id\<close> and \<open>switch_leaves_previous_room_nonempty_id\<close> below),
  for the empty identifier it does not.
\<close>

lemma room_table_lifecycle:
  "(\<forall>r. r \<in> dom (activeRooms (run evs init_state)) \<longleftrightarrow> members (run evs init_state) r \<noteq> {}) \<and>
   dom (roomCursors (run evs init_state)) = dom (activeRooms (run evs init_state)) \<and>
   (\<forall>r. r \<notin> dom (activeRooms (run evs init_state)) \<and>
        r \<in> dom (activeRooms (fst (on_event now sid ev (run evs init_state)))) \<longrightarrow>
        (\<exists>u. ev = JoinRoom r u True) \<and>
        activeRooms (fst (on_event now sid ev (run evs init_state))) r = Some {sid} \<and>
        roomCursors (fst (on_event now sid ev (run evs init_state))) r = Some Map.empty) \<and>
   (\<forall>r u b. ev = JoinRoom r u b \<and> (r \<in> dom (activeRooms (run evs init_state)) \<or> b) \<longrightarrow>
        sid \<in> members (fst (on_event now sid ev (run evs init_state))) r \<and>
        r \<in> dom (activeRooms (fst (on_event now sid ev (run evs init_state)))) \<and>
        r \<in> dom (roomCursors (fst (on_event now sid ev (run evs init_state))))) \<and>
   (\<forall>r. r \<in> dom (activeRooms (run evs init_state)) \<and>
        r \<notin> dom (activeRooms (fst (on_event now sid ev (run evs init_state)))) \<longrightarrow>
        members (run evs init_state) r = {sid} \<and>
        r \<notin> dom (roomCursors (fst (on_event now sid ev (run evs init_state))))) \<and>
   (\<forall>r c. members (run evs init_state) r = {c} \<and>
        c \<notin> members (fst (on_event now sid ev (run evs init_state))) r \<longrightarrow>
        r \<notin> dom (activeRooms (fst (on_event now sid ev (run evs init_state)))) \<and>
        r \<notin> dom (roomCursors (fst (on_event now sid ev (run evs init_state)))))"
proof -
  let ?s = "run evs init_state"
  have ok: "rooms_ok ?s" by (rule rooms_ok_reached)
  have 1: "\<forall>r. r \<in> dom (activeRooms ?s) \<longleftrightarrow> members ?s r \<noteq> {}"
    using ok by (simp add: dom_activeRooms_iff)
  have 2: "dom (roomCursors ?s) = dom (activeRooms ?s)"
    using ok by (simp add: rooms_ok_def)
  have 3: "\<forall>r. r \<notin> dom (activeRooms ?s) \<and> r \<in> dom (activeRooms (fst (on_event now sid ev ?s))) \<longrightarrow>
        (\<exists>u. ev = JoinRoom r u True) \<and>
        activeRooms (fst (on_event now sid ev ?s)) r = Some {sid} \<and>
        roomCursors (fst (on_event now sid ev ?s)) r = Some Map.empty"
  proof (intro allI impI, elim conjE)
    fix r
    assume "r \<notin> dom (activeRooms ?s)" "r \<in> dom (activeRooms (fst (on_event now sid ev ?s)))"
    then show "(\<exists>u. ev = JoinRoom r u True) \<and>
        activeRooms (fst (on_event now sid ev ?s)) r = Some {sid} \<and>
        roomCursors (fst (on_event now sid ev ?s)) r = Some Map.empty"
      by (rule room_created_by_join [OF ok])
  qed
  have 4: "\<forall>r u b. ev = JoinRoom r u b \<and> (r \<in> dom (activeRooms ?s) \<or> b) \<longrightarrow>
        sid \<in> members (fst (on_event now sid ev ?s)) r \<and>
        r \<in> dom (activeRooms (fst (on_event now sid ev ?s))) \<and>
        r \<in> dom (roomCursors (fst (on_event now sid ev ?s)))"
  proof (intro allI impI, elim conjE)
    fix r u b
    assume e: "ev = JoinRoom r u b" and g: "r \<in> dom (activeRooms ?s) \<or> b"
    from g show "sid \<in> members (fst (on_event now sid ev ?s)) r \<and>
        r \<in> dom (activeRooms (fst (on_event now sid ev ?s))) \<and>
        r \<in> dom (roomCursors (fst (on_event now sid ev ?s)))"
      unfolding e by (rule join_enters_room [OF ok])
  qed
  have 5: "\<forall>r. r \<in> dom (activeRooms ?s) \<and> r \<notin> dom (activeRooms (fst (on_event now sid ev ?s))) \<longrightarrow>
        members ?s r = {sid} \<and> r \<notin> dom (roomCursors (fst (on_event now sid ev ?s)))"
  proof (intro allI impI, elim conjE)
    fix r
    assume "r \<in> dom (activeRooms ?s)" "r \<notin> dom (activeRooms (fst (on_event now sid ev ?s)))"
    then show "members ?s r = {sid} \<and> r \<notin> dom (roomCursors (fst (on_event now sid ev ?s)))"
      by (rule room_deleted_with_last_member [OF ok])
  qed
  have 6: "\<forall>r c. members ?s r = {c} \<and> c \<notin> members (fst (on_event now sid ev ?s)) r \<longrightarrow>
        r \<notin> dom (activeRooms (fst (on_event now sid ev ?s))) \<and>
        r \<notin> dom (roomCursors (fst (on_event now sid ev ?s)))"
  proof (intro allI impI, elim conjE)
    fix r c
    assume "members ?s r = {c}" "c \<notin> members (fst (on_event now sid ev ?s)) r"
    then show "r \<notin> dom (activeRooms (fst (on_event now sid ev ?s))) \<and>
        r \<notin> dom (roomCursors (fst (on_event now sid ev ?s)))"
      by (rule last_member_leaves_room_deleted [OF ok])
  qed
  from 1 2 3 4 5 6 show ?thesis by (intro conjI)
qed

text \<open>
  Claim C1 says that a room is in the membership table if and only if it has members, and
  that the entry and its cursor map are deleted in the cleanup step in which the last
  member departs. The guards \<^verbatim>\<open>if (roomId)\<close> of the disconnect handler and
  \<^verbatim>\<open>if (previousRoom)\<close> of the join handler are false for the empty string, so the room
  with the empty identifier outlives its last member. Here socket \<open>a\<close> connects, creates
  that room and disconnects: the room is still a key of \<open>activeRooms\<close>, with the closed
  socket as its only member, its cursor map is still there, and no socket is attached to
  it. The same happens when \<open>b\<close>, alone in that room, switches to room \<open>r1\<close>.
\<close>

theorem empty_room_id_outlives_last_member:
  "activeRooms (run [(0, ''a'', Connect), (1, ''a'', JoinRoom [] ''u1'' True),
                     (2, ''a'', Disconnect)] init_state) [] = Some {''a''} \<and>
   roomCursors (run [(0, ''a'', Connect), (1, ''a'', JoinRoom [] ''u1'' True),
                     (2, ''a'', Disconnect)] init_state) [] = Some Map.empty \<and>
   adapterRooms (run [(0, ''a'', Connect), (1, ''a'', JoinRoom [] ''u1'' True),
                      (2, ''a'', Disconnect)] init_state) [] = {} \<and>
   socketToRoom (run [(0, ''b'', Connect), (1, ''b'', JoinRoom [] ''u2'' True),
                      (2, ''b'', JoinRoom ''r1'' ''u2'' True)] init_state) ''b'' = Some ''r1'' \<and>
   activeRooms (run [(0, ''b'', Connect), (1, ''b'', JoinRoom [] ''u2'' True),
                     (2, ''b'', JoinRoom ''r1'' ''u2'' True)] init_state) [] = Some {''b''} \<and>
   roomCursors (run [(0, ''b'', Connect), (1, ''b'', JoinRoom [] ''u2'' True),
                     (2, ''b'', JoinRoom ''r1'' ''u2'' True)] init_state) [] = Some Map.empty"
  by (simp add: eval_defs)

section \<open>Joining a room that does not exist\<close>

text \<open>
  Claim C5. A \<^verbatim>\<open>join-room\<close> for a room that is not in the membership table, with
  \<open>isCreating = false\<close>, returns the state as it was (table, registry, cursor store and
  adapter rooms) and makes exactly one emit call, \<^verbatim>\<open>room-not-available\<close>, whose only
  recipient is the sender.
\<close>

theorem join_missing_room_rejected:
  assumes "activeRooms s R = None"
  shows "on_event now sid (JoinRoom R u False) s =
           (s, [Emit ToSender ''room-not-available'' (Message ''Room does not exist'')]) \<and>
         deliveries s sid (snd (on_event now sid (JoinRoom R u False) s)) =
           {(sid, ''room-not-available'', Message ''Room does not exist'')}"
  using assms by (simp add: join_room_def)

theorem join_missing_room_rejected_witness:
  "activeRooms init_state ''r1'' = None \<and>
   on_event 0 ''a'' (JoinRoom ''r1'' ''u1'' False) init_state =
     (init_state, [Emit ToSender ''room-not-available'' (Message ''Room does not exist'')]) \<and>
   deliveries init_state ''a'' (snd (on_event 0 ''a'' (JoinRoom ''r1'' ''u1'' False) init_state)) =
     {(''a'', ''room-not-available'', Message ''Room does not exist'')}"
proof -
  have h: "activeRooms init_state ''r1'' = None" by (simp add: init_state_def)
  show ?thesis by (rule conjI [OF h join_missing_room_rejected [OF h]])
qed


section \<open>Disconnect of a socket that is in no room\<close>

text \<open>
  Claim C10. When the registry has no entry for the socket, the \<^verbatim>\<open>disconnect\<close> handler
  returns its state unchanged, so the membership table, the cursor store and the registry
  are as before, and it emits nothing.
\<close>

theorem disconnect_unregistered_noop:
  assumes "socketToRoom s sid = None"
  shows "disconnect sid s = (s, []) \<and>
         activeRooms (fst (on_event now sid Disconnect s)) = activeRooms s \<and>
         roomCursors (fst (on_event now sid Disconnect s)) = roomCursors s \<and>
         socketToRoom (fst (on_event now sid Disconnect s)) = socketToRoom s \<and>
         snd (on_event now sid Disconnect s) = [] \<and>
         deliveries (fst (on_event now sid Disconnect s)) sid (snd (on_event now sid Disconnect s)) = {}"
  using assms by (simp add: disconnect_def)

theorem disconnect_unregistered_noop_witness:
  "socketToRoom (run [(0, ''a'', JoinRoom ''r1'' ''u1'' True)] init_state) ''b'' = None \<and>
   activeRooms (fst (on_event 1 ''b'' Disconnect (run [(0, ''a'', JoinRoom ''r1'' ''u1'' True)] init_state)))
     = activeRooms (run [(0, ''a'', JoinRoom ''r1'' ''u1'' True)] init_state) \<and>
   snd (on_event 1 ''b'' Disconnect (run [(0, ''a'', JoinRoom ''r1'' ''u1'' True)] init_state)) = []"
proof -
  have h: "socketToRoom (run [(0, ''a'', JoinRoom ''r1'' ''u1'' True)] init_state) ''b'' = None"
    by (simp add: eval_defs)
  note t = disconnect_unregistered_noop [OF h, of 1]
  from t have "activeRooms (fst (on_event 1 ''b'' Disconnect (run [(0, ''a'', JoinRoom ''r1'' ''u1'' True)] init_state)))
     = activeRooms (run [(0, ''a'', JoinRoom ''r1'' ''u1'' True)] init_state)"
    by (elim conjE)
  moreover from t have "snd (on_event 1 ''b'' Disconnect (run [(0, ''a'', JoinRoom ''r1'' ''u1'' True)] init_state)) = []"
    by (elim conjE)
  ultimately show ?thesis using h by (intro conjI)
qed

section \<open>The cursor store\<close>

lemma cursor_record_other_fields [simp]:
  "cursor_record (s\<lparr>adapterRooms := a\<rparr>) r c = cursor_record s r c"
  "cursor_record (s\<lparr>activeRooms := t\<rparr>) r c = cursor_record s r c"
  "cursor_record (s\<lparr>socketToRoom := g\<rparr>) r c = cursor_record s r c"
  by (simp_all add: cursor_record_def)

lemma cursor_record_leave_previous:
  "cursor_record s r c = None \<Longrightarrow> cursor_record (leave_previous_room sid s) r c = None"
  by (auto simp: cursor_record_def leave_previous_room_def Let_def split: option.splits)

lemma cursor_record_join_new:
  "cursor_record s r c = None \<Longrightarrow> cursor_record (join_new_room sid r2 s) r c = None"
  by (auto simp: cursor_record_def join_new_room_def Let_def split: option.splits)

lemma cursor_record_join_room:
  "cursor_record s r c = None \<Longrightarrow> cursor_record (fst (join_room sid r2 u b s)) r c = None"
  by (simp add: join_room_def cursor_record_leave_previous cursor_record_join_new)

lemma cursor_record_disconnect:
  "cursor_record s r c = None \<Longrightarrow> cursor_record (fst (disconnect sid s)) r c = None"
  by (auto simp: cursor_record_def disconnect_def Let_def split: option.splits if_splits)

lemma cursor_record_selection:
  "cursor_record s r c = None \<Longrightarrow>
   cursor_record (fst (cursor_selection now sid r2 sel u ui s)) r c = None"
  by (auto simp: cursor_record_def cursor_selection_def split: option.splits if_splits)

lemma cursor_record_move:
  "cursor_record s r c = None \<Longrightarrow>
   cursor_record (fst (cursor_move now sid r2 p u ui s)) r c \<noteq> None \<Longrightarrow> sid = c \<and> r2 = r"
  by (auto simp: cursor_record_def cursor_move_def split: option.splits if_splits)

lemma cursor_record_visibility:
  "cursor_record s r c = None \<Longrightarrow>
   cursor_record (fst (cursor_visibility now sid r2 v u ui s)) r c \<noteq> None \<Longrightarrow>
   sid = c \<and> r2 = r \<and> v"
  by (auto simp: cursor_record_def cursor_visibility_def split: option.splits if_splits)

lemma record_created_only_by_move_or_visible:
  assumes "cursor_record s r c = None"
    and "cursor_record (fst (on_event now sid ev s)) r c \<noteq> None"
  shows "sid = c \<and> ((\<exists>p u ui. ev = CursorMove r p u ui) \<or> (\<exists>u ui. ev = CursorVisibility r True u ui))"
proof (cases ev)
  case (JoinRoom r2 u b)
  with assms show ?thesis by (simp add: cursor_record_join_room)
next
  case Disconnect
  with assms show ?thesis by (simp add: cursor_record_disconnect)
next
  case (CursorMove r2 p u ui)
  with assms cursor_record_move [of s r c now sid r2 p u ui] show ?thesis by simp
next
  case (CursorSelection r2 sel u ui)
  with assms show ?thesis by (simp add: cursor_record_selection)
next
  case (CursorVisibility r2 v u ui)
  with assms cursor_record_visibility [of s r c now sid r2 v u ui] show ?thesis by simp
qed (use assms in \<open>simp_all add: relay_defs split: if_splits\<close>)

text \<open>
  Claim C7. A \<^verbatim>\<open>cursor-selection\<close> of a socket that has no cursor record in the named
  room leaves the whole state, and so the cursor store, unchanged. When the socket has a
  record there, the state after is the state before with that one record changed in its
  selection and timestamp fields only. And for every event of every socket: a cursor
  record that did not exist before the event and exists after it belongs to the sender and
  was made by a \<^verbatim>\<open>cursor-move\<close> for that room or by a \<^verbatim>\<open>cursor-visibility\<close> for that room
  with \<open>isVisible = true\<close>.
\<close>

theorem selection_needs_existing_record:
  "(cursor_record s r sid = None \<longrightarrow>
      fst (on_event now sid (CursorSelection r sel u ui) s) = s) \<and>
   (\<forall>m cur. roomCursors s r = Some m \<and> m sid = Some cur \<longrightarrow>
      fst (on_event now sid (CursorSelection r sel u ui) s) =
        s\<lparr>roomCursors := (roomCursors s)(r \<mapsto> m(sid \<mapsto>
             cur\<lparr>cur_selection := Some sel, cur_timestamp := Some now\<rparr>))\<rparr>) \<and>
   (\<forall>c r' sid' ev. cursor_record s r' c = None \<and>
      cursor_record (fst (on_event now sid' ev s)) r' c \<noteq> None \<longrightarrow>
      sid' = c \<and> ((\<exists>p u ui. ev = CursorMove r' p u ui) \<or>
                  (\<exists>u ui. ev = CursorVisibility r' True u ui)))"
proof (intro conjI allI impI)
  assume "cursor_record s r sid = None"
  then show "fst (on_event now sid (CursorSelection r sel u ui) s) = s"
    by (auto simp: cursor_record_def cursor_selection_def split: option.splits)
next
  fix m cur
  assume "roomCursors s r = Some m \<and> m sid = Some cur"
  then show "fst (on_event now sid (CursorSelection r sel u ui) s) =
        s\<lparr>roomCursors := (roomCursors s)(r \<mapsto> m(sid \<mapsto>
             cur\<lparr>cur_selection := Some sel, cur_timestamp := Some now\<rparr>))\<rparr>"
    by (simp add: cursor_selection_def)
next
  fix c r' sid' ev
  assume h: "cursor_record s r' c = None \<and> cursor_record (fst (on_event now sid' ev s)) r' c \<noteq> None"
  show "sid' = c"
    using record_created_only_by_move_or_visible [OF conjunct1 [OF h] conjunct2 [OF h]]
    by (rule conjunct1)
  show "(\<exists>p u ui. ev = CursorMove r' p u ui) \<or> (\<exists>u ui. ev = CursorVisibility r' True u ui)"
    using record_created_only_by_move_or_visible [OF conjunct1 [OF h] conjunct2 [OF h]]
    by (rule conjunct2)
qed

theorem selection_needs_existing_record_witness:
  "cursor_record (run [(0, ''a'', JoinRoom ''r'' ''u'' True)] init_state) ''r'' ''a'' = None \<and>
   fst (on_event 2 ''a'' (CursorSelection ''r'' (Selection (Position 1 0) (Position 1 4)) ''u''
          (UserInfo ''Ann'' ''red'')) (run [(0, ''a'', JoinRoom ''r'' ''u'' True)] init_state)) =
     run [(0, ''a'', JoinRoom ''r'' ''u'' True)] init_state \<and>
   cursor_record (fst (on_event 2 ''a'' (CursorMove ''r'' (Position 3 5) ''u'' (UserInfo ''Ann'' ''red''))
          (run [(0, ''a'', JoinRoom ''r'' ''u'' True)] init_state))) ''r'' ''a'' \<noteq> None \<and>
   cursor_record (fst (on_event 2 ''a'' (CursorSelection ''r'' (Selection (Position 1 0) (Position 1 4))
          ''u'' (UserInfo ''Ann'' ''red''))
        (run [(0, ''a'', JoinRoom ''r'' ''u'' True),
              (1, ''a'', CursorMove ''r'' (Position 3 5) ''u'' (UserInfo ''Ann'' ''red''))] init_state)))
      ''r'' ''a'' =
     Some \<lparr>cur_position = Some (Position 3 5),
           cur_selection = Some (Selection (Position 1 0) (Position 1 4)),
           cur_isVisible = None, cur_userId = Some ''u'',
           cur_userInfo = Some (UserInfo ''Ann'' ''red''), cur_timestamp = Some 2\<rparr>"
proof -
  let ?s0 = "run [(0, ''a'', JoinRoom ''r'' ''u'' True)] init_state"
  let ?s1 = "run [(0, ''a'', JoinRoom ''r'' ''u'' True),
              (1, ''a'', CursorMove ''r'' (Position 3 5) ''u'' (UserInfo ''Ann'' ''red''))] init_state"
  let ?cur = "\<lparr>cur_position = Some (Position 3 5), cur_selection = None,
           cur_isVisible = None, cur_userId = Some ''u'',
           cur_userInfo = Some (UserInfo ''Ann'' ''red''), cur_timestamp = Some 1\<rparr>"
  let ?sel = "Selection (Position 1 0) (Position 1 4)"
  note t0 = selection_needs_existing_record [of ?s0 "''r''" "''a''" 2 ?sel "''u''"
      "UserInfo ''Ann'' ''red''"]
  note t1 = selection_needs_existing_record [of ?s1 "''r''" "''a''" 2 ?sel "''u''"
      "UserInfo ''Ann'' ''red''"]
  have n: "cursor_record ?s0 ''r'' ''a'' = None" by (simp add: eval_defs)
  have a: "fst (on_event 2 ''a'' (CursorSelection ''r'' ?sel ''u'' (UserInfo ''Ann'' ''red'')) ?s0) = ?s0"
    using t0 [THEN conjunct1, rule_format, OF n] .
  have c: "cursor_record (fst (on_event 2 ''a'' (CursorMove ''r'' (Position 3 5) ''u''
      (UserInfo ''Ann'' ''red'')) ?s0)) ''r'' ''a'' \<noteq> None"
    by (simp add: eval_defs)
  have m: "roomCursors ?s1 ''r'' = Some [''a'' \<mapsto> ?cur] \<and> [''a'' \<mapsto> ?cur] ''a'' = Some ?cur"
    by (simp add: eval_defs)
  have b: "fst (on_event 2 ''a'' (CursorSelection ''r'' ?sel ''u'' (UserInfo ''Ann'' ''red'')) ?s1) =
      ?s1\<lparr>roomCursors := (roomCursors ?s1)(''r'' \<mapsto> [''a'' \<mapsto> ?cur](''a'' \<mapsto>
        ?cur\<lparr>cur_selection := Some ?sel, cur_timestamp := Some 2\<rparr>))\<rparr>"
    using t1 [THEN conjunct2, THEN conjunct1, rule_format, OF m] .
  have d: "cursor_record (fst (on_event 2 ''a'' (CursorSelection ''r'' ?sel ''u''
      (UserInfo ''Ann'' ''red'')) ?s1)) ''r'' ''a'' =
     Some \<lparr>cur_position = Some (Position 3 5), cur_selection = Some ?sel,
           cur_isVisible = None, cur_userId = Some ''u'',
           cur_userInfo = Some (UserInfo ''Ann'' ''red''), cur_timestamp = Some 2\<rparr>"
    unfolding b by (simp add: cursor_record_def)
  from n a c d show ?thesis by (intro conjI)
qed

text \<open>
  Claim C8 says that a position update with no prior record leaves a record with only the
  position, the user-display descriptor and the timestamp set. The object literal of the
  \<^verbatim>\<open>cursor-move\<close> handler also stores \<^verbatim>\<open>userId\<close>: after socket \<open>y\<close> has created room
  \<open>r1\<close> and moved its cursor, its record is there and is not of that shape.
\<close>

theorem cursor_move_record_has_userId:
  "cursor_record (run [(0, ''y'', JoinRoom ''r1'' ''u2'' True)] init_state) ''r1'' ''y'' = None \<and>
   cursor_record (fst (on_event 5 ''y'' (CursorMove ''r1'' (Position 3 5) ''u2'' (UserInfo ''Ann'' ''red''))
      (run [(0, ''y'', JoinRoom ''r1'' ''u2'' True)] init_state))) ''r1'' ''y'' \<noteq> None \<and>
   \<not> only_position_userInfo_timestamp (the (cursor_record
      (fst (on_event 5 ''y'' (CursorMove ''r1'' (Position 3 5) ''u2'' (UserInfo ''Ann'' ''red''))
        (run [(0, ''y'', JoinRoom ''r1'' ''u2'' True)] init_state))) ''r1'' ''y''))"
  by (simp add: eval_defs only_position_userInfo_timestamp_def)

lemma reached_room_has_cursor_map:
  "activeRooms (run evs init_state) r \<noteq> None \<Longrightarrow> roomCursors (run evs init_state) r \<noteq> None"
  using rooms_ok_reached [of evs] by (metis rooms_ok_def domIff)

lemma reached_no_cursor_map_no_room:
  "roomCursors (run evs init_state) r = None \<Longrightarrow> activeRooms (run evs init_state) r = None"
  using reached_room_has_cursor_map by blast

text \<open>
  Claim C8, with the stored \<^verbatim>\<open>userId\<close> added. After a \<^verbatim>\<open>cursor-visibility\<close> with
  \<open>isVisible = false\<close> the sender has no cursor record in the named room. After a
  \<^verbatim>\<open>cursor-move\<close> of a socket without a prior record, in a room of the membership table
  of a reached state, the record holds exactly the position, the \<^verbatim>\<open>userId\<close>, the
  \<^verbatim>\<open>userInfo\<close> and the timestamp of the event; selection and visibility flag are absent.
\<close>

theorem invisible_drops_move_creates:
  "cursor_record (fst (on_event now sid (CursorVisibility r False u ui) s)) r sid = None \<and>
   (activeRooms (run evs init_state) r \<noteq> None \<and> cursor_record (run evs init_state) r sid = None \<longrightarrow>
    cursor_record (fst (on_event now sid (CursorMove r p u ui) (run evs init_state))) r sid =
      Some \<lparr>cur_position = Some p, cur_selection = None, cur_isVisible = None,
            cur_userId = Some u, cur_userInfo = Some ui, cur_timestamp = Some now\<rparr>)"
proof (intro conjI impI)
  show "cursor_record (fst (on_event now sid (CursorVisibility r False u ui) s)) r sid = None"
    by (simp add: cursor_record_def cursor_visibility_def split: option.splits)
next
  assume "activeRooms (run evs init_state) r \<noteq> None \<and> cursor_record (run evs init_state) r sid = None"
  then have "roomCursors (run evs init_state) r \<noteq> None"
    by (simp add: reached_room_has_cursor_map)
  then show "cursor_record (fst (on_event now sid (CursorMove r p u ui) (run evs init_state))) r sid =
      Some \<lparr>cur_position = Some p, cur_selection = None, cur_isVisible = None,
            cur_userId = Some u, cur_userInfo = Some ui, cur_timestamp = Some now\<rparr>"
    by (auto simp: cursor_record_def cursor_move_def)
qed

theorem invisible_drops_move_creates_witness:
  "activeRooms (run [(0, ''y'', JoinRoom ''r1'' ''u2'' True)] init_state) ''r1'' \<noteq> None \<and>
   cursor_record (run [(0, ''y'', JoinRoom ''r1'' ''u2'' True)] init_state) ''r1'' ''y'' = None \<and>
   cursor_record (fst (on_event 5 ''y'' (CursorMove ''r1'' (Position 3 5) ''u2'' (UserInfo ''Ann'' ''red''))
      (run [(0, ''y'', JoinRoom ''r1'' ''u2'' True)] init_state))) ''r1'' ''y'' =
     Some \<lparr>cur_position = Some (Position 3 5), cur_selection = None, cur_isVisible = None,
           cur_userId = Some ''u2'', cur_userInfo = Some (UserInfo ''Ann'' ''red''),
           cur_timestamp = Some 5\<rparr>"
proof -
  let ?s = "run [(0, ''y'', JoinRoom ''r1'' ''u2'' True)] init_state"
  have h: "activeRooms ?s ''r1'' \<noteq> None \<and> cursor_record ?s ''r1'' ''y'' = None"
    by (simp add: eval_defs)
  note t = invisible_drops_move_creates [of 5 "''y''" "''r1''" "''u2''" "UserInfo ''Ann'' ''red''" ?s
      "[(0, ''y'', JoinRoom ''r1'' ''u2'' True)]" "Position 3 5"]
  from t [THEN conjunct2, rule_format, OF h] h show ?thesis by (intro conjI) (elim conjE, assumption)+
qed



section \<open>Relaying\<close>




section \<open>The registry and the empty room identifier\<close>

text \<open>
  What the registry guarantees in every reached state: a registered socket is a member
  of its registered room, and for a non-empty room identifier membership and registration
  coincide (lemmas \<open>registered_is_member\<close> and \<open>member_iff_registered\<close> above). So a
  socket is in at most one room with a non-empty identifier.
\<close>

text \<open>
  Claim C2 says that every connection is in at most one member set, the one its registry
  entry names, and that a connection without a registry entry is in none. The guard
  \<^verbatim>\<open>if (previousRoom)\<close> of the join handler is false for the empty string, so a socket
  registered in the room with the empty identifier is not taken out of it when it joins
  another room. Here socket \<open>a\<close> creates the room with the empty identifier and then
  room \<open>r1\<close>: it is a member of both, registered in \<open>r1\<close>; after its disconnect it has
  no registry entry and is still a member of the first.
\<close>

theorem empty_room_id_socket_in_two_rooms:
  "''a'' \<in> members (run [(0, ''a'', JoinRoom [] ''u1'' True),
                         (1, ''a'', JoinRoom ''r1'' ''u1'' True)] init_state) [] \<and>
   ''a'' \<in> members (run [(0, ''a'', JoinRoom [] ''u1'' True),
                         (1, ''a'', JoinRoom ''r1'' ''u1'' True)] init_state) ''r1'' \<and>
   socketToRoom (run [(0, ''a'', JoinRoom [] ''u1'' True),
                      (1, ''a'', JoinRoom ''r1'' ''u1'' True)] init_state) ''a'' = Some ''r1'' \<and>
   socketToRoom (run [(0, ''a'', JoinRoom [] ''u1'' True),
                      (1, ''a'', JoinRoom ''r1'' ''u1'' True),
                      (2, ''a'', Disconnect)] init_state) ''a'' = None \<and>
   ''a'' \<in> members (run [(0, ''a'', JoinRoom [] ''u1'' True),
                         (1, ''a'', JoinRoom ''r1'' ''u1'' True),
                         (2, ''a'', Disconnect)] init_state) []"
  by (simp add: eval_defs)

section \<open>Disconnect of a joined socket\<close>

text \<open>
  The detach cascade of \<^verbatim>\<open>disconnect\<close> for a socket registered in a room with a non-empty
  identifier, in a reached state: the socket leaves the member set, its cursor record in
  that room is dropped, the registry entry is cleared, one \<^verbatim>\<open>user-left\<close> is emitted to
  the other sockets attached to the room, among them all remaining members, and when the
  socket was the only member the room entry and the cursor map are deleted.
\<close>

lemma disconnect_emits:
  "socketToRoom s c = Some r \<Longrightarrow> r \<noteq> [] \<Longrightarrow>
   snd (disconnect c s) = [Emit (ToOthersIn r) ''user-left'' (UserLeft c)]"
  by (simp add: disconnect_def Let_def)

lemma disconnect_drops_cursor:
  "socketToRoom s c = Some r \<Longrightarrow> r \<noteq> [] \<Longrightarrow> cursor_record (fst (disconnect c s)) r c = None"
  by (auto simp: disconnect_def cursor_record_def Let_def split: option.splits)

lemma disconnect_cascade_nonempty_id:
  assumes reg: "socketToRoom (run evs init_state) c = Some r" and ne: "r \<noteq> []"
  shows "members (fst (on_event now c Disconnect (run evs init_state))) r =
           members (run evs init_state) r - {c}"
    and "cursor_record (fst (on_event now c Disconnect (run evs init_state))) r c = None"
    and "socketToRoom (fst (on_event now c Disconnect (run evs init_state))) c = None"
    and "snd (on_event now c Disconnect (run evs init_state)) =
           [Emit (ToOthersIn r) ''user-left'' (UserLeft c)]"
    and "deliveries (fst (on_event now c Disconnect (run evs init_state))) c
           (snd (on_event now c Disconnect (run evs init_state))) =
         (\<lambda>d. (d, ''user-left'', UserLeft c)) ` (adapterRooms (run evs init_state) r - {c})"
    and "members (run evs init_state) r - {c} \<subseteq> adapterRooms (run evs init_state) r - {c}"
    and "members (run evs init_state) r = {c} \<Longrightarrow>
         activeRooms (fst (on_event now c Disconnect (run evs init_state))) r = None \<and>
         roomCursors (fst (on_event now c Disconnect (run evs init_state))) r = None"
proof -
  let ?s = "run evs init_state"
  let ?s' = "fst (on_event now c Disconnect ?s)"
  show m: "members ?s' r = members ?s r - {c}"
    using reg ne by (simp add: disconnect_step)
  show "cursor_record ?s' r c = None"
    using reg ne by (simp add: disconnect_drops_cursor)
  show "socketToRoom ?s' c = None"
    using reg ne by (simp add: disconnect_step)
  show out: "snd (on_event now c Disconnect ?s) = [Emit (ToOthersIn r) ''user-left'' (UserLeft c)]"
    using reg ne by (simp add: disconnect_emits)
  have "adapterRooms ?s' r - {c} = adapterRooms ?s r - {c}"
    by (simp add: disconnect_step)
  then show "deliveries ?s' c (snd (on_event now c Disconnect ?s)) =
         (\<lambda>d. (d, ''user-left'', UserLeft c)) ` (adapterRooms ?s r - {c})"
    unfolding out by simp
  show "members ?s r - {c} \<subseteq> adapterRooms ?s r - {c}"
    using member_attached [OF ne, of _ evs] by blast
  assume "members ?s r = {c}"
  with m have e: "members ?s' r = {}" by simp
  have ok': "rooms_ok ?s'" using rooms_ok_reached by (rule rooms_ok_step)
  from e ok' have a: "r \<notin> dom (activeRooms ?s')" by (simp add: dom_activeRooms_iff)
  with ok' have "r \<notin> dom (roomCursors ?s')" by (simp add: rooms_ok_def)
  with a show "activeRooms ?s' r = None \<and> roomCursors ?s' r = None" by (simp add: domIff)
qed

text \<open>
  Claim C3 says that the disconnect of a joined connection removes it from the three
  stores and sends one \<^verbatim>\<open>user-left\<close> to the remaining members. The guard \<^verbatim>\<open>if (roomId)\<close>
  of the disconnect handler is false for the empty string. Here sockets \<open>a\<close> and \<open>b\<close>
  are in the room with the empty identifier and \<open>a\<close> disconnects: nothing is emitted,
  \<open>a\<close> stays in the member set and keeps its registry entry.
\<close>

theorem disconnect_from_empty_room_id_skipped:
  "socketToRoom (run [(0, ''a'', JoinRoom [] ''u1'' True),
                      (1, ''b'', JoinRoom [] ''u2'' False)] init_state) ''a'' = Some [] \<and>
   members (run [(0, ''a'', JoinRoom [] ''u1'' True),
                 (1, ''b'', JoinRoom [] ''u2'' False)] init_state) [] = {''a'', ''b''} \<and>
   snd (on_event 2 ''a'' Disconnect
          (run [(0, ''a'', JoinRoom [] ''u1'' True),
                (1, ''b'', JoinRoom [] ''u2'' False)] init_state)) = [] \<and>
   members (fst (on_event 2 ''a'' Disconnect
          (run [(0, ''a'', JoinRoom [] ''u1'' True),
                (1, ''b'', JoinRoom [] ''u2'' False)] init_state))) [] = {''a'', ''b''} \<and>
   socketToRoom (fst (on_event 2 ''a'' Disconnect
          (run [(0, ''a'', JoinRoom [] ''u1'' True),
                (1, ''b'', JoinRoom [] ''u2'' False)] init_state))) ''a'' = Some []"
  by (auto simp: eval_defs)

section \<open>Switching rooms\<close>

text \<open>
  What a successful switch does to the previous room, when that room has a non-empty
  identifier: the socket leaves its member set, and when it was the only member the room
  entry and the cursor map are deleted.
\<close>

lemma switch_leaves_previous_room_nonempty_id:
  assumes reg: "socketToRoom (run evs init_state) c = Some P" and ne: "P \<noteq> []"
    and other: "R \<noteq> P" and go: "activeRooms (run evs init_state) R \<noteq> None \<or> b"
  shows "members (fst (on_event now c (JoinRoom R u b) (run evs init_state))) P =
           members (run evs init_state) P - {c}"
    and "members (run evs init_state) P = {c} \<Longrightarrow>
         activeRooms (fst (on_event now c (JoinRoom R u b) (run evs init_state))) P = None \<and>
         roomCursors (fst (on_event now c (JoinRoom R u b) (run evs init_state))) P = None"
proof -
  let ?s = "run evs init_state"
  let ?s' = "fst (on_event now c (JoinRoom R u b) ?s)"
  show m: "members ?s' P = members ?s P - {c}"
    using reg ne other go by (auto simp: members_join_room)
  assume "members ?s P = {c}"
  with m have e: "members ?s' P = {}" by simp
  have ok': "rooms_ok ?s'" using rooms_ok_reached by (rule rooms_ok_step)
  from e ok' have a: "P \<notin> dom (activeRooms ?s')" by (simp add: dom_activeRooms_iff)
  with ok' have "P \<notin> dom (roomCursors ?s')" by (simp add: rooms_ok_def)
  with a show "activeRooms ?s' P = None \<and> roomCursors ?s' P = None" by (simp add: domIff)
qed

text \<open>
  Claim C4 says that after a switch from room \<open>P\<close> the cursor store has no record for the
  connection in \<open>P\<close>. The join handler removes the socket from the participants of the
  previous room and drops the cursor map only when the room becomes empty; unlike the
  disconnect handler it never deletes the socket's own cursor record. Here \<open>a\<close> and
  \<open>b\<close> are in room \<open>p\<close>, \<open>a\<close> has moved its cursor and then creates room \<open>r\<close>:
  \<open>a\<close> is no longer a member of \<open>p\<close>, and its cursor record in \<open>p\<close> is still stored.
\<close>

theorem room_switch_keeps_cursor_record:
  "socketToRoom (run [(0, ''a'', JoinRoom ''p'' ''u1'' True),
                      (1, ''b'', JoinRoom ''p'' ''u2'' False),
                      (2, ''a'', CursorMove ''p'' (Position 3 5) ''u1'' (UserInfo ''Ann'' ''red''))]
                   init_state) ''a'' = Some ''p'' \<and>
   ''a'' \<notin> members (fst (on_event 3 ''a'' (JoinRoom ''r'' ''u1'' True)
       (run [(0, ''a'', JoinRoom ''p'' ''u1'' True),
             (1, ''b'', JoinRoom ''p'' ''u2'' False),
             (2, ''a'', CursorMove ''p'' (Position 3 5) ''u1'' (UserInfo ''Ann'' ''red''))]
          init_state))) ''p'' \<and>
   cursor_record (fst (on_event 3 ''a'' (JoinRoom ''r'' ''u1'' True)
       (run [(0, ''a'', JoinRoom ''p'' ''u1'' True),
             (1, ''b'', JoinRoom ''p'' ''u2'' False),
             (2, ''a'', CursorMove ''p'' (Position 3 5) ''u1'' (UserInfo ''Ann'' ''red''))]
          init_state))) ''p'' ''a'' =
     Some \<lparr>cur_position = Some (Position 3 5), cur_selection = None, cur_isVisible = None,
           cur_userId = Some ''u1'', cur_userInfo = Some (UserInfo ''Ann'' ''red''),
           cur_timestamp = Some 2\<rparr>"
  by (auto simp: eval_defs)

end
